theory Spec2Isabelle
  imports Complex_Main
begin

section \<open>Radius table (app\_functions.py, radius\_lookup and get\_radius)\<close>

text \<open>
  The module-level dictionary \<open>radius_lookup\<close> maps a basin code to a dictionary from
  forecast hour to the radius of the 2/3 probability circle in nautical miles. Both
  levels are Python dictionaries; they are modelled as maps built from the literal
  association lists of the source. Forecast hours and radii are Python integers.
\<close>

definition radius_AL :: "(int \<times> int) list" where
  "radius_AL = [(12, 26), (24, 41), (36, 55), (48, 70), (60, 88), (72, 102), (96, 151), (120, 220)]"

definition radius_EP :: "(int \<times> int) list" where
  "radius_EP = [(12, 26), (24, 39), (36, 53), (48, 65), (60, 76), (72, 92), (96, 119), (120, 152)]"

definition radius_CP :: "(int \<times> int) list" where
  "radius_CP = [(12, 34), (24, 49), (36, 66), (48, 81), (60, 95), (72, 120), (96, 137), (120, 156)]"

definition radius_lookup :: "string \<rightharpoonup> (int \<rightharpoonup> int)" where
  "radius_lookup = map_of
     [(''AL'', map_of radius_AL),
      (''EP'', map_of radius_EP),
      (''CP'', map_of radius_CP),
      (''WP'', map_of radius_AL),
      (''IO'', map_of radius_AL),
      (''SH'', map_of radius_AL),
      (''SL'', map_of radius_AL)]"

text \<open>
  \<^verbatim>\<open>
  def get_radius(basin, forecast_hour):
      if basin in radius_lookup and forecast_hour in radius_lookup[basin]:
          return radius_lookup[basin][forecast_hour]
      return None
  \<close>
  The subscript \<open>radius_lookup[basin]\<close> is only evaluated behind the membership test,
  so \<open>the\<close> is only applied to a present key.
\<close>

definition get_radius :: "string \<Rightarrow> int \<Rightarrow> int option" where
  "get_radius basin forecast_hour =
     (if basin \<in> dom radius_lookup \<and> forecast_hour \<in> dom (the (radius_lookup basin))
      then (the (radius_lookup basin)) forecast_hour
      else None)"

section \<open>Intensity classifier (app\_functions.py)\<close>

text \<open>
  The bound tables hold numbers and the float infinity. A bound is therefore either a
  number or infinity; wind speeds and pressures are finite numbers (reals: the
  comparisons of the source are exact on integers and on finite floats alike).
\<close>

datatype bound = Num real | Infinity

fun lt_bound :: "real \<Rightarrow> bound \<Rightarrow> bool" where
  "lt_bound x (Num b) = (x < b)"
| "lt_bound x Infinity = True"

text \<open>
  \<^verbatim>\<open>
  ws_categories = [
      (0, 34, 'Tropical Depression', -1),
      (34, 63, 'Tropical Storm', 0),
      (64, 82, 'Category 1', 1),
      (83, 95, 'Category 2', 2),
      (96, 112, 'Category 3', 3),
      (113, 136, 'Category 4', 4),
      (137, float('inf'), 'Category 5', 5)
  ]
  \<close>
\<close>

definition ws_categories :: "(real \<times> bound \<times> string \<times> int) list" where
  "ws_categories =
     [(0, Num 34, ''Tropical Depression'', -1),
      (34, Num 63, ''Tropical Storm'', 0),
      (64, Num 82, ''Category 1'', 1),
      (83, Num 95, ''Category 2'', 2),
      (96, Num 112, ''Category 3'', 3),
      (113, Num 136, ''Category 4'', 4),
      (137, Infinity, ''Category 5'', 5)]"

text \<open>
  \<^verbatim>\<open>
  def wind_speed_to_category(wind_speed):
      for lower_bound, upper_bound, category_name, category_number in ws_categories:
          if lower_bound <= wind_speed < upper_bound:
              return category_name, category_number
      return 'Unknown' ,-999
  \<close>
  The loop returns at the first row that matches; it is the recursion \<open>ws_scan\<close>.
\<close>

fun ws_scan :: "(real \<times> bound \<times> string \<times> int) list \<Rightarrow> real \<Rightarrow> string \<times> int" where
  "ws_scan [] wind_speed = (''Unknown'', -999)"
| "ws_scan ((lower_bound, upper_bound, category_name, category_number) # rest) wind_speed =
     (if lower_bound \<le> wind_speed \<and> lt_bound wind_speed upper_bound
      then (category_name, category_number)
      else ws_scan rest wind_speed)"

definition wind_speed_to_category :: "real \<Rightarrow> string \<times> int" where
  "wind_speed_to_category wind_speed = ws_scan ws_categories wind_speed"

text \<open>
  \<^verbatim>\<open>
  cp_categories = [
      (np.inf, 990, 'Tropical Storm', 0),
      (990, 980, 'Category 1', 1),
      (980, 965, 'Category 2', 2),
      (965, 945, 'Category 3', 3),
      (945, 920, 'Category 4', 4),
      (920, 0, 'Category 5', 5)
  ]

  def pressure_to_category(central_pressure):
      for upper_bound, lower_bound, category_name, category_number in cp_categories:
          if upper_bound > central_pressure >= lower_bound:
              return category_name, category_number
      return 'Unknown', -999
  \<close>
  Here the upper bound comes first in each row.
\<close>

definition cp_categories :: "(bound \<times> real \<times> string \<times> int) list" where
  "cp_categories =
     [(Infinity, 990, ''Tropical Storm'', 0),
      (Num 990, 980, ''Category 1'', 1),
      (Num 980, 965, ''Category 2'', 2),
      (Num 965, 945, ''Category 3'', 3),
      (Num 945, 920, ''Category 4'', 4),
      (Num 920, 0, ''Category 5'', 5)]"

fun cp_scan :: "(bound \<times> real \<times> string \<times> int) list \<Rightarrow> real \<Rightarrow> string \<times> int" where
  "cp_scan [] central_pressure = (''Unknown'', -999)"
| "cp_scan ((upper_bound, lower_bound, category_name, category_number) # rest) central_pressure =
     (if lt_bound central_pressure upper_bound \<and> lower_bound \<le> central_pressure
      then (category_name, category_number)
      else cp_scan rest central_pressure)"

definition pressure_to_category :: "real \<Rightarrow> string \<times> int" where
  "pressure_to_category central_pressure = cp_scan cp_categories central_pressure"

text \<open>The ordinal severity of a classification is its second component.\<close>

definition severity :: "string \<times> int \<Rightarrow> int" where
  "severity c = snd c"

section \<open>Python string operations\<close>

text \<open>
  A Python \<open>str\<close> is a sequence of code points. The model uses \<open>string\<close>, whose
  characters are the code points below 256. On those, \<open>str.isspace\<close> holds of the code
  points 9 to 13, 28 to 32, 133 and 160, and \<open>str.isdigit\<close> of the ASCII digits and of
  the superscript digits 178, 179 and 185.
\<close>

definition isspace :: "char \<Rightarrow> bool" where
  "isspace c = (let n = (of_char c :: nat)
                in (9 \<le> n \<and> n \<le> 13) \<or> (28 \<le> n \<and> n \<le> 32) \<or> n = 133 \<or> n = 160)"

definition isdigit :: "char \<Rightarrow> bool" where
  "isdigit c = (let n = (of_char c :: nat)
                in (48 \<le> n \<and> n \<le> 57) \<or> n = 178 \<or> n = 179 \<or> n = 185)"

text \<open>
  \<open>s.split()\<close> with no argument cuts \<open>s\<close> at runs of whitespace and yields the
  non-empty pieces in order. \<open>split_acc cur s\<close> scans \<open>s\<close> with the piece \<open>cur\<close>
  read so far.
\<close>

fun split_acc :: "string \<Rightarrow> string \<Rightarrow> string list" where
  "split_acc cur [] = (if cur = [] then [] else [cur])"
| "split_acc cur (c # cs) =
     (if isspace c
      then (if cur = [] then split_acc [] cs else cur # split_acc [] cs)
      else split_acc (cur @ [c]) cs)"

definition py_split :: "string \<Rightarrow> string list" where
  "py_split s = split_acc [] s"

text \<open>\<open>sep.join(words)\<close>.\<close>

fun py_join :: "string \<Rightarrow> string list \<Rightarrow> string" where
  "py_join sep [] = []"
| "py_join sep [w] = w"
| "py_join sep (w # ws) = w @ sep @ py_join sep ws"

text \<open>\<open>s.strip()\<close> removes leading and trailing whitespace.\<close>

definition py_lstrip :: "string \<Rightarrow> string" where
  "py_lstrip s = dropWhile isspace s"

definition py_rstrip :: "string \<Rightarrow> string" where
  "py_rstrip s = rev (dropWhile isspace (rev s))"

definition py_strip :: "string \<Rightarrow> string" where
  "py_strip s = py_rstrip (py_lstrip s)"

section \<open>Label cleaning (app\_functions.py, clean\_strings)\<close>

text \<open>
  \<^verbatim>\<open>
  def process_string(s):
      words = s.split()
      cleaned_words = []
      for i, word in enumerate(words):
          if i == 0:
              # Always keep the first word
              cleaned_words.append(word)
          else:
              if any(char.isdigit() for char in word):
                  # Remove this word and stop processing further words
                  break
              else:
                  cleaned_words.append(word)
      return ' '.join(cleaned_words).strip()
  \<close>
  \<open>clean_loop i words cleaned_words\<close> is the loop from index \<open>i\<close> on, with the words
  still to visit and the list built so far; \<open>break\<close> returns the list as it stands.
  \<open>clean_strings\<close> applies \<open>process_string\<close> to every value of the label column.
\<close>

fun clean_loop :: "nat \<Rightarrow> string list \<Rightarrow> string list \<Rightarrow> string list" where
  "clean_loop i [] cleaned_words = cleaned_words"
| "clean_loop i (word # rest) cleaned_words =
     (if i = 0 then clean_loop (Suc i) rest (cleaned_words @ [word])
      else if list_ex isdigit word then cleaned_words
      else clean_loop (Suc i) rest (cleaned_words @ [word]))"

definition process_string :: "string \<Rightarrow> string" where
  "process_string s = py_strip (py_join '' '' (clean_loop 0 (py_split s) []))"

definition clean_strings :: "string list \<Rightarrow> string list" where
  "clean_strings column = map process_string column"

text \<open>A word: a non-empty string with no whitespace in it.\<close>

definition wordlike :: "string \<Rightarrow> bool" where
  "wordlike w = (w \<noteq> [] \<and> \<not> list_ex isspace w)"

section \<open>Cone builder (app\_functions.py)\<close>

subsection \<open>Frames and geometry\<close>

text \<open>
  A geometry is the set of points of the plane it covers; the empty geometry (what
  shapely prints as \<open>GEOMETRYCOLLECTION EMPTY\<close>) is the empty set. A forecast point is a
  singleton. Union and \<open>unary_union\<close> are set union. The operations whose result
  shapely and pyproj compute numerically are parameters of the model: the buffer of a
  geometry by a distance, the convex hull, and the two reprojections (to the UTM zone
  that \<open>estimate_utm_crs\<close> picks for a frame, and back to EPSG:4326), which act
  point by point.
\<close>

type_synonym point = "real \<times> real"

type_synonym geom = "point set"

text \<open>
  One row of the forecast frame, with the columns the cone builder reads.
  \<open>ForecastHour\<close> is an integer number of hours.
\<close>

record row =
  ModelName :: string
  ForecastHour :: int
  Basin :: string
  geometry :: geom

text \<open>
  A \<open>GeoDataFrame\<close> is either a frame with the columns above and a coordinate
  reference system (as read from an advisory), holding any number of rows, or
  \<open>gpd.GeoDataFrame()\<close>: the frame with no columns and no rows.
\<close>

datatype gdf = Frame "row list" | EmptyFrame

text \<open>The exceptions that the modelled code can meet.\<close>

datatype error = KeyError string | UnboundLocalError string | ValueError | UnicodeEncodeError

record geo =
  buffer :: "geom \<Rightarrow> int \<Rightarrow> geom"
  convex_hull :: "geom \<Rightarrow> geom"
  to_utm :: "row list \<Rightarrow> point \<Rightarrow> point"
  to_wgs84 :: "row list \<Rightarrow> point \<Rightarrow> point"

text \<open>\<open>df.empty\<close>: true when the frame has no rows or no columns.\<close>

fun empty_gdf :: "gdf \<Rightarrow> bool" where
  "empty_gdf (Frame rs) = (rs = [])"
| "empty_gdf EmptyFrame = True"

text \<open>
  \<open>df[df['ModelName'] == model]\<close>: the rows of that model, in order. Reading a column
  of a frame that has no such column raises \<open>KeyError\<close>.
\<close>

fun select_model :: "gdf \<Rightarrow> string \<Rightarrow> error + gdf" where
  "select_model (Frame rs) model = Inr (Frame (filter (\<lambda>r. ModelName r = model) rs))"
| "select_model EmptyFrame model = Inl (KeyError ''ModelName'')"

text \<open>
  \<open>df.sort_values(by='ForecastHour')\<close>: the rows of the sorted frame, in ascending
  order of the column; \<open>KeyError\<close> when the frame has no such column. Rows with
  equal keys are kept in their order here, which the default sort of pandas does not
  promise: the order of rows with the same forecast hour is not fixed by the code.
\<close>

fun sort_values :: "gdf \<Rightarrow> error + row list" where
  "sort_values (Frame rs) = Inr (sort_key ForecastHour rs)"
| "sort_values EmptyFrame = Inl (KeyError ''ForecastHour'')"

text \<open>\<open>df.to_crs(df.estimate_utm_crs())\<close> on a frame with rows and a CRS.\<close>

definition to_crs_utm :: "geo \<Rightarrow> row list \<Rightarrow> row list" where
  "to_crs_utm g rs = map (\<lambda>r. r\<lparr>geometry := to_utm g rs ` geometry r\<rparr>) rs"

subsection \<open>filter\_adeck\_gdf\_for\_official\_model\<close>

text \<open>
  \<^verbatim>\<open>
  def filter_adeck_gdf_for_official_model(adeck_gdf):
      models_to_try = ['OFCL', 'OFCI', 'AEMN', 'AVNO', 'AVNI', 'AVNX', 'EGRR', 'EGRI', 'EGR2',
                       'UKM', 'UKX', 'UKMI', 'UKXI', 'UKM2', 'UKX2', 'HWRF', 'HWFI', 'HWF2']
      for model in models_to_try:
          ofcl_gdf = adeck_gdf[adeck_gdf['ModelName'] == model]
          if not ofcl_gdf.empty:
              break  # Stop if we find data for the current model
      if ofcl_gdf.empty:
          print("No relevant model data found. Returning empty cone.")
          ofcl_gdf = gpd.GeoDataFrame()  # Return empty GeoDataFrame
      return ofcl_gdf
  \<close>
  \<open>try_models\<close> is the loop; its last argument is the variable \<open>ofcl_gdf\<close>, unbound
  (\<open>None\<close>) before the first iteration.
\<close>

definition models_to_try :: "string list" where
  "models_to_try =
     [''OFCL'', ''OFCI'', ''AEMN'', ''AVNO'', ''AVNI'', ''AVNX'', ''EGRR'', ''EGRI'', ''EGR2'',
      ''UKM'', ''UKX'', ''UKMI'', ''UKXI'', ''UKM2'', ''UKX2'', ''HWRF'', ''HWFI'', ''HWF2'']"

fun try_models :: "gdf \<Rightarrow> string list \<Rightarrow> gdf option \<Rightarrow> error + gdf option" where
  "try_models adeck_gdf [] ofcl_gdf = Inr ofcl_gdf"
| "try_models adeck_gdf (model # rest) ofcl_gdf =
     (case select_model adeck_gdf model of
        Inl e \<Rightarrow> Inl e
      | Inr sel \<Rightarrow> if \<not> empty_gdf sel then Inr (Some sel)
                 else try_models adeck_gdf rest (Some sel))"

definition filter_adeck_gdf_for_official_model :: "gdf \<Rightarrow> error + gdf" where
  "filter_adeck_gdf_for_official_model adeck_gdf =
     (case try_models adeck_gdf models_to_try None of
        Inl e \<Rightarrow> Inl e
      | Inr None \<Rightarrow> Inl (UnboundLocalError ''ofcl_gdf'')
      | Inr (Some ofcl_gdf) \<Rightarrow> Inr (if empty_gdf ofcl_gdf then EmptyFrame else ofcl_gdf))"

subsection \<open>create\_uncertainty\_cone\<close>

text \<open>
  \<^verbatim>\<open>
  def create_uncertainty_cone(input_gdf):
      ofcl_gdf=filter_adeck_gdf_for_official_model(input_gdf)
      ofcl_gdf = ofcl_gdf.sort_values(by='ForecastHour')
      ofcl_gdf = ofcl_gdf.to_crs(ofcl_gdf.estimate_utm_crs())
      buffered_geometries = []
      for _, row in ofcl_gdf.iterrows():
          forecast_hour = row['ForecastHour']
          basin = row['Basin']
          radius_nm = get_radius(basin, forecast_hour)
          if radius_nm is None:
              continue
          radius_m = radius_nm * 1852
          buffer_geom = row['geometry'].buffer(radius_m)
          buffered_geometries.append(buffer_geom)
      if not buffered_geometries:
          print("No buffered geometries created.")
          return gpd.GeoDataFrame()
      convex_hull_segments = []
      for first, second in zip(buffered_geometries, buffered_geometries[1:]):
          convex_hull_segment = first.convex_hull.union(second.convex_hull).convex_hull
          convex_hull_segments.append(convex_hull_segment)
      final_cone_polygon = unary_union(convex_hull_segments)
      cone_gdf = gpd.GeoDataFrame(geometry=gpd.GeoSeries([final_cone_polygon]), crs=ofcl_gdf.crs)
      cone_gdf = cone_gdf.to_crs("EPSG:4326")
      return cone_gdf
  \<close>
  The returned frame has at most the geometry column; it is modelled by the list of its
  geometries, one per row: \<open>[]\<close> is \<open>gpd.GeoDataFrame()\<close>, and \<open>[g]\<close> the frame with
  the single row \<open>g\<close>.
\<close>

type_synonym cone_gdf = "geom list"

fun buffer_rows :: "geo \<Rightarrow> row list \<Rightarrow> geom list \<Rightarrow> geom list" where
  "buffer_rows g [] buffered_geometries = buffered_geometries"
| "buffer_rows g (r # rest) buffered_geometries =
     (case get_radius (Basin r) (ForecastHour r) of
        None \<Rightarrow> buffer_rows g rest buffered_geometries
      | Some radius_nm \<Rightarrow>
          buffer_rows g rest (buffered_geometries @ [buffer g (geometry r) (radius_nm * 1852)]))"

definition convex_hull_segments :: "geo \<Rightarrow> geom list \<Rightarrow> geom list" where
  "convex_hull_segments g buffered_geometries =
     map (\<lambda>(first, second). convex_hull g (convex_hull g first \<union> convex_hull g second))
         (zip buffered_geometries (tl buffered_geometries))"

definition unary_union :: "geom list \<Rightarrow> geom" where
  "unary_union gs = \<Union> (set gs)"

definition create_uncertainty_cone :: "geo \<Rightarrow> gdf \<Rightarrow> error + cone_gdf" where
  "create_uncertainty_cone g input_gdf =
     (case filter_adeck_gdf_for_official_model input_gdf of
        Inl e \<Rightarrow> Inl e
      | Inr ofcl_gdf \<Rightarrow>
          (case sort_values ofcl_gdf of
             Inl e \<Rightarrow> Inl e
           | Inr sorted_rows \<Rightarrow>
               (let utm_rows = to_crs_utm g sorted_rows;
                    buffered_geometries = buffer_rows g utm_rows []
                in if buffered_geometries = [] then Inr []
                   else Inr [to_wgs84 g sorted_rows `
                               unary_union (convex_hull_segments g buffered_geometries)])))"

text \<open>
  The points the cone is built from: the rows of the first preferred model that has
  any, and among them those with an entry in the radius table.
\<close>

definition usable :: "row list \<Rightarrow> row list" where
  "usable rs = filter (\<lambda>r. get_radius (Basin r) (ForecastHour r) \<noteq> None) rs"

text \<open>
  An instance of the geometry operations, with the exact shapes that the numerical ones
  approximate: the buffer is the set of points within the distance, the convex hull the
  least convex superset, and the reprojections are the identity.
\<close>

definition is_convex :: "geom \<Rightarrow> bool" where
  "is_convex T = (\<forall>(x1, y1) \<in> T. \<forall>(x2, y2) \<in> T. \<forall>u. 0 \<le> u \<and> u \<le> 1 \<longrightarrow>
                    ((1 - u) * x1 + u * x2, (1 - u) * y1 + u * y2) \<in> T)"

definition plane_geo :: geo where
  "plane_geo =
     \<lparr>buffer = (\<lambda>s d. {(x, y). \<exists>(a, b) \<in> s. (x - a)\<^sup>2 + (y - b)\<^sup>2 \<le> (real_of_int d)\<^sup>2}),
      convex_hull = (\<lambda>s. \<Inter> {T. is_convex T \<and> s \<subseteq> T}),
      to_utm = (\<lambda>rs p. p),
      to_wgs84 = (\<lambda>rs p. p)\<rparr>"

text \<open>
  Two values of the body of \<open>create_uncertainty_cone\<close>, as functions of the sorted
  rows: the list \<open>buffered_geometries\<close> and the polygon \<open>final_cone_polygon\<close>, both
  in the metric frame (before the reprojection to EPSG:4326).
\<close>

definition buffered_geometries :: "geo \<Rightarrow> row list \<Rightarrow> geom list" where
  "buffered_geometries g sorted_rows = buffer_rows g (to_crs_utm g sorted_rows) []"



section \<open>Storm name inference (get\_Forecast\_Data\_V3.py, extract\_storm\_info)\<close>

subsection \<open>More string operations\<close>

text \<open>
  Case mapping (\<open>upper\<close>, \<open>title\<close>) is that of Python on the code points below
  256, with three exceptions: the upper-case forms of the code points 181, 223 and 255
  are not code points below 256 (U+039C, the two letters SS, U+0178), and the model
  leaves these three unchanged. The advisory format is ASCII. \<open>str.isalpha\<close> is
  given for all code points below 256.
\<close>

definition isupper_char :: "char \<Rightarrow> bool" where
  "isupper_char c = (let n = (of_char c :: nat)
     in (65 \<le> n \<and> n \<le> 90) \<or> (192 \<le> n \<and> n \<le> 214) \<or> (216 \<le> n \<and> n \<le> 222))"

definition islower_char :: "char \<Rightarrow> bool" where
  "islower_char c = (let n = (of_char c :: nat)
     in (97 \<le> n \<and> n \<le> 122) \<or> n = 170 \<or> n = 181 \<or> n = 186
        \<or> (223 \<le> n \<and> n \<le> 246) \<or> 248 \<le> n)"

definition upper_char :: "char \<Rightarrow> char" where
  "upper_char c = (let n = (of_char c :: nat)
     in if (97 \<le> n \<and> n \<le> 122) \<or> (224 \<le> n \<and> n \<le> 246) \<or> (248 \<le> n \<and> n \<le> 254)
        then char_of (n - 32) else c)"

definition lower_char :: "char \<Rightarrow> char" where
  "lower_char c = (if isupper_char c then char_of ((of_char c :: nat) + 32) else c)"

definition upper :: "string \<Rightarrow> string" where
  "upper s = map upper_char s"

definition isalpha_char :: "char \<Rightarrow> bool" where
  "isalpha_char c = (let n = (of_char c :: nat)
     in (65 \<le> n \<and> n \<le> 90) \<or> (97 \<le> n \<and> n \<le> 122) \<or> n = 170 \<or> n = 181 \<or> n = 186
        \<or> (192 \<le> n \<and> n \<le> 214) \<or> (216 \<le> n \<and> n \<le> 246) \<or> 248 \<le> n)"

text \<open>\<open>s.isalpha()\<close>: at least one character, and all of them letters.\<close>

definition isalpha :: "string \<Rightarrow> bool" where
  "isalpha s = (s \<noteq> [] \<and> list_all isalpha_char s)"

text \<open>
  \<open>s.title()\<close>: a cased character is upper-cased when it follows an uncased one (or
  starts the string) and lower-cased when it follows a cased one.
\<close>

fun title_from :: "bool \<Rightarrow> string \<Rightarrow> string" where
  "title_from previous_is_cased [] = []"
| "title_from previous_is_cased (c # cs) =
     (if previous_is_cased then lower_char c else upper_char c)
       # title_from (isupper_char c \<or> islower_char c) cs"

definition title :: "string \<Rightarrow> string" where
  "title s = title_from False s"

text \<open>\<open>s.rstrip(',')\<close> removes the trailing commas.\<close>

definition rstrip_comma :: "string \<Rightarrow> string" where
  "rstrip_comma s = rev (dropWhile (\<lambda>c. c = CHR '','') (rev s))"

text \<open>\<open>s.endswith(t)\<close>.\<close>

definition endswith :: "string \<Rightarrow> string \<Rightarrow> bool" where
  "endswith s t = (length t \<le> length s \<and> drop (length s - length t) s = t)"

subsection \<open>The name component of extract\_storm\_info\<close>

text \<open>
  \<^verbatim>\<open>
  storm_name_dict = {}
  basin_codes = ["AL", "EP", "CP", "WP", "IO", "SH"]
  number_words_set = {
      'ONE', 'TWO', 'THREE', 'FOUR', 'FIVE', 'SIX', 'SEVEN', 'EIGHT', 'NINE', 'TEN',
      'ELEVEN', 'TWELVE', 'THIRTEEN', 'FOURTEEN', 'FIFTEEN', 'SIXTEEN', 'SEVENTEEN',
      'EIGHTEEN', 'NINETEEN', 'TWENTY'
  }
  with open(dat_file_path, 'r') as file:
      for line in file:
          columns = line.strip().split()
          if len(columns) >= 28:
              potential_name = columns[27].strip().rstrip(',').upper()
              # Add potential_name to the dictionary
              if potential_name:
                  storm_name_dict[potential_name] = storm_name_dict.get(potential_name, 0) + 1
          # Parse dates as before
          ...
  \<close>
  The file is the list of its lines. The dictionary keeps its keys in insertion order,
  which the code relies on (\<open>storm_names[-1]\<close>): it is an association list from name
  to count, a new key going to the end. The dates that the same loop collects do not
  enter the name and are left out.
\<close>

definition basin_codes :: "string list" where
  "basin_codes = [''AL'', ''EP'', ''CP'', ''WP'', ''IO'', ''SH'']"

definition number_words_set :: "string set" where
  "number_words_set =
     {''ONE'', ''TWO'', ''THREE'', ''FOUR'', ''FIVE'', ''SIX'', ''SEVEN'', ''EIGHT'', ''NINE'',
      ''TEN'', ''ELEVEN'', ''TWELVE'', ''THIRTEEN'', ''FOURTEEN'', ''FIFTEEN'', ''SIXTEEN'',
      ''SEVENTEEN'', ''EIGHTEEN'', ''NINETEEN'', ''TWENTY''}"

text \<open>\<open>d[k] = d.get(k, 0) + 1\<close>.\<close>

fun dict_incr :: "(string \<times> nat) list \<Rightarrow> string \<Rightarrow> (string \<times> nat) list" where
  "dict_incr [] k = [(k, 1)]"
| "dict_incr ((k', n) # d) k =
     (if k' = k then (k', n + 1) # d else (k', n) # dict_incr d k)"

text \<open>
  The name token of one line: \<open>None\<close> when the line has fewer than 28 columns or the
  token is empty, so that the line adds nothing to the dictionary.
\<close>

definition potential_name :: "string \<Rightarrow> string option" where
  "potential_name line =
     (let columns = py_split (py_strip line)
      in if length columns \<ge> 28
         then (let name = upper (rstrip_comma (py_strip (columns ! 27)))
               in if name \<noteq> [] then Some name else None)
         else None)"

fun count_names :: "string list \<Rightarrow> (string \<times> nat) list \<Rightarrow> (string \<times> nat) list" where
  "count_names [] storm_name_dict = storm_name_dict"
| "count_names (line # rest) storm_name_dict =
     (case potential_name line of
        Some name \<Rightarrow> count_names rest (dict_incr storm_name_dict name)
      | None \<Rightarrow> count_names rest storm_name_dict)"

text \<open>
  \<^verbatim>\<open>
  # Step 1: Remove basin codes from the dictionary keys
  storm_name_dict = {k: v for k, v in storm_name_dict.items() if k not in basin_codes}
  # Step 2: Remove entries that contain digits
  storm_name_dict = {k: v for k, v in storm_name_dict.items() if not any(char.isdigit() for char in k)}
  # Step 3: Remove entries that are in number_words
  storm_name_dict = {k: v for k, v in storm_name_dict.items() if k not in number_words_set}
  # Get list of storm names
  storm_names = list(storm_name_dict.keys())
  \<close>
\<close>

definition filter_names :: "(string \<times> nat) list \<Rightarrow> (string \<times> nat) list" where
  "filter_names storm_name_dict =
     (let d1 = filter (\<lambda>(k, v). k \<notin> set basin_codes) storm_name_dict;
          d2 = filter (\<lambda>(k, v). \<not> list_ex isdigit k) d1;
          d3 = filter (\<lambda>(k, v). k \<notin> number_words_set) d2
      in d3)"

text \<open>
  \<^verbatim>\<open>
  for name in storm_names:
      cleaned_name = name
      for basin_code in basin_codes:
          if name.endswith(basin_code):
              name_without_basin = name[:-len(basin_code)].strip()
              # Ensure the name is non-empty and alphabetical
              if name_without_basin.isalpha():
                  cleaned_name = name_without_basin
                  break  # Stop checking after removing basin code
      cleaned_names.add(cleaned_name)
  \<close>
  \<open>strip_basin name codes\<close> is the inner loop over the codes still to try; the slice
  \<open>name[:-len(basin_code)]\<close> is taken only when the name ends with the code, so it is
  the name without its last \<open>len(basin_code)\<close> characters. The set \<open>cleaned_names\<close> is
  a list without repetition; only its size and, when it is a singleton, its element
  are read.
\<close>

fun strip_basin :: "string \<Rightarrow> string list \<Rightarrow> string" where
  "strip_basin name [] = name"
| "strip_basin name (basin_code # rest) =
     (if endswith name basin_code
      then (let name_without_basin = py_strip (take (length name - length basin_code) name)
            in if isalpha name_without_basin then name_without_basin
               else strip_basin name rest)
      else strip_basin name rest)"

definition set_add :: "string list \<Rightarrow> string \<Rightarrow> string list" where
  "set_add s x = (if x \<in> set s then s else s @ [x])"

fun clean_names :: "string list \<Rightarrow> string list \<Rightarrow> string list" where
  "clean_names [] cleaned_names = cleaned_names"
| "clean_names (name # rest) cleaned_names =
     clean_names rest (set_add cleaned_names (strip_basin name basin_codes))"

text \<open>
  \<^verbatim>\<open>
  if len(storm_names) == 0:
      storm_name = 'DISTURBANCE'
  elif storm_names == ['INVEST']:
      storm_name = 'INVEST'
  else:
      # Remove 'INVEST' if other names are present
      if 'INVEST' in storm_names:
          storm_names.remove('INVEST')
      if len(storm_names) == 1:
          storm_name = storm_names[0]
      else:
          # Multiple names remain
          ... (the loop above)
          if len(cleaned_names) == 1:
              storm_name = cleaned_names.pop()
          else:
              # Names don't match, take the last one
              storm_name = storm_names[-1]
  ...
  return storm_name.title(), storm_start_date, storm_end_date, storm_year
  \<close>
  \<open>choose_name\<close> is this choice, on the list of names. The subscripts \<open>[0]\<close> and
  \<open>[-1]\<close> are read on a list that is never empty there (\<open>remove_invest_nonempty\<close>
  below). \<open>extract_storm_info_name\<close> is the first component of the result.
\<close>

definition remove_invest :: "string list \<Rightarrow> string list" where
  "remove_invest storm_names =
     (if ''INVEST'' \<in> set storm_names then remove1 ''INVEST'' storm_names else storm_names)"

definition choose_name :: "string list \<Rightarrow> string" where
  "choose_name storm_names =
     (if length storm_names = 0 then ''DISTURBANCE''
      else if storm_names = [''INVEST''] then ''INVEST''
      else (let storm_names = remove_invest storm_names
            in if length storm_names = 1 then storm_names ! 0
               else (let cleaned_names = clean_names storm_names []
                     in if length cleaned_names = 1 then cleaned_names ! 0
                        else last storm_names)))"

definition extract_storm_info_name :: "string list \<Rightarrow> string" where
  "extract_storm_info_name file_lines =
     title (choose_name (map fst (filter_names (count_names file_lines []))))"

subsection \<open>The rule that the name follows\<close>

text \<open>
  The name tokens of a file in order, one per line that has one; the first
  appearances of a list; and the tokens that are kept as candidates: those that are
  not a basin code, hold no digit and are not a number word from ONE to TWENTY.
\<close>

definition potential_names :: "string list \<Rightarrow> string list" where
  "potential_names file_lines = List.map_filter potential_name file_lines"

definition first_appearances :: "'a list \<Rightarrow> 'a list" where
  "first_appearances xs = rev (remdups (rev xs))"

definition is_candidate :: "string \<Rightarrow> bool" where
  "is_candidate k = (k \<notin> set basin_codes \<and> \<not> list_ex isdigit k \<and> k \<notin> number_words_set)"

definition candidates :: "string list \<Rightarrow> string list" where
  "candidates file_lines = first_appearances (filter is_candidate (potential_names file_lines))"

text \<open>
  The rule, on the candidates in order of first appearance: no candidate gives
  DISTURBANCE; INVEST counts only when it is the sole candidate; a sole other candidate
  is the name; several candidates give their common form without basin code when they
  all have the same one, and the last candidate otherwise. Counts play no part.
\<close>

definition name_rule :: "string list \<Rightarrow> string" where
  "name_rule cs =
     (if cs = [] then ''DISTURBANCE''
      else if cs = [''INVEST''] then ''INVEST''
      else (let ns = filter (\<lambda>n. n \<noteq> ''INVEST'') cs
            in if length ns = 1 then hd ns
               else if \<forall>n \<in> set ns. strip_basin n basin_codes = strip_basin (hd ns) basin_codes
                    then strip_basin (hd ns) basin_codes
                    else last ns))"

text \<open>
  A line of 27 comma-terminated fields followed by a name field, in the layout of an
  advisory line, for evaluating the functions above.
\<close>

definition sample_line :: "string \<Rightarrow> string" where
  "sample_line name =
     ''AL, 09, 2024092412, 03, OFCL, 12, 183N, 829W, 30, 1004, TD, 34, NEQ, 0, 0, 0, 0, 1008, 180, 30, 0, 0, L, 0, X, 0, 0, ''
       @ name @ '', M,''"

section \<open>Coordinate parser (app\_functions.py, parse\_lat\_lon)\<close>

text \<open>
  \<^verbatim>\<open>
  def parse_lat_lon(value):
      if isinstance(value, str):
          value = value.strip()
          if value and value[-1] in ['N', 'S', 'E', 'W']:
              direction = value[-1]
              try:
                  degrees = float(value[:-1]) / 10.0  # Assuming value is in tenths of degrees
              except ValueError:
                  print(f"Error parsing degrees from value: {value}")
                  return None
              if direction in ['S', 'W']:
                  degrees = -degrees
              return degrees
          elif value:
              # If no direction indicator, try to convert directly
              try:
                  return float(value) / 10.0
              except ValueError:
                  print(f"Error parsing lat/lon value '{value}': cannot convert to float.")
                  return None
      return None
  \<close>
  The argument is any Python value: a string, or something else (a number, \<open>None\<close>).
  Here a string is the list of its code points, so that every Python string is a value
  of the model, surrogates included. \<open>str.isspace\<close> holds of the code points listed in
  \<open>isspace_cp\<close>.
\<close>

type_synonym pystr = "nat list"




datatype pyvalue = PyStr pystr | PyInt int | PyFloat real | PyNone








section \<open>Properties of the radius table\<close>

lemma dom_radius_lookup:
  "dom radius_lookup = {''AL'', ''EP'', ''CP'', ''WP'', ''IO'', ''SH'', ''SL''}"
  unfolding radius_lookup_def by (auto simp: dom_map_of_conv_image_fst)

lemma dom_radius_AL: "dom (map_of radius_AL) = {12, 24, 36, 48, 60, 72, 96, 120}"
  unfolding radius_AL_def by (auto simp: dom_map_of_conv_image_fst)

lemma dom_radius_EP: "dom (map_of radius_EP) = {12, 24, 36, 48, 60, 72, 96, 120}"
  unfolding radius_EP_def by (auto simp: dom_map_of_conv_image_fst)

lemma dom_radius_CP: "dom (map_of radius_CP) = {12, 24, 36, 48, 60, 72, 96, 120}"
  unfolding radius_CP_def by (auto simp: dom_map_of_conv_image_fst)

lemma radius_AL_pos: "map_of radius_AL h = Some r \<Longrightarrow> 0 < r"
  unfolding radius_AL_def by (auto split: if_splits)

lemma radius_EP_pos: "map_of radius_EP h = Some r \<Longrightarrow> 0 < r"
  unfolding radius_EP_def by (auto split: if_splits)

lemma radius_CP_pos: "map_of radius_CP h = Some r \<Longrightarrow> 0 < r"
  unfolding radius_CP_def by (auto split: if_splits)

lemma radius_lookup_cases:
  assumes "radius_lookup b = Some t"
  shows "t = map_of radius_AL \<or> t = map_of radius_EP \<or> t = map_of radius_CP"
  using assms unfolding radius_lookup_def by (auto split: if_splits)

lemma radius_table_dom:
  assumes "radius_lookup b = Some t"
  shows "dom t = {12, 24, 36, 48, 60, 72, 96, 120}"
proof -
  from radius_lookup_cases [OF assms] show ?thesis
  proof (elim disjE)
    assume "t = map_of radius_AL" then show ?thesis by (simp only: dom_radius_AL)
  next
    assume "t = map_of radius_EP" then show ?thesis by (simp only: dom_radius_EP)
  next
    assume "t = map_of radius_CP" then show ?thesis by (simp only: dom_radius_CP)
  qed
qed

lemma radius_table_pos:
  assumes "radius_lookup b = Some t" and "t h = Some r"
  shows "0 < r"
  using radius_lookup_cases [OF assms(1)] assms(2)
  by (blast dest: radius_AL_pos radius_EP_pos radius_CP_pos)

lemma get_radius_Some_iff:
  "get_radius b h = Some r \<longleftrightarrow> (\<exists>t. radius_lookup b = Some t \<and> t h = Some r)"
  unfolding get_radius_def by (auto simp: dom_def)

text \<open>
  C8. For every basin and forecast horizon present in the radius table, \<open>get_radius\<close>
  returns a positive number of nautical miles; for every horizon outside
  12, 24, 36, 48, 60, 72, 96, 120, and for every basin outside the table, it returns
  \<open>None\<close>, never a default.
\<close>

theorem get_radius_table:
  "(B \<in> dom radius_lookup \<and> H \<in> dom (the (radius_lookup B)) \<longrightarrow>
      (\<exists>r. get_radius B H = Some r \<and> 0 < r))
   \<and> (H \<notin> {12, 24, 36, 48, 60, 72, 96, 120} \<or> B \<notin> dom radius_lookup \<longrightarrow>
      get_radius B H = None)
   \<and> (B \<in> {''AL'', ''EP'', ''CP'', ''WP'', ''IO'', ''SH'', ''SL''}
        \<and> H \<in> {12, 24, 36, 48, 60, 72, 96, 120} \<longrightarrow>
      (\<exists>r. get_radius B H = Some r \<and> 0 < r))"
proof (intro conjI impI)
  assume a: "B \<in> dom radius_lookup \<and> H \<in> dom (the (radius_lookup B))"
  then obtain t where t: "radius_lookup B = Some t" by auto
  with a obtain r where r: "t H = Some r" by auto
  have "get_radius B H = Some r" using t r by (simp add: get_radius_Some_iff)
  moreover have "0 < r" using radius_table_pos [OF t r] .
  ultimately show "\<exists>r. get_radius B H = Some r \<and> 0 < r" by blast
next
  assume a: "H \<notin> {12, 24, 36, 48, 60, 72, 96, 120} \<or> B \<notin> dom radius_lookup"
  show "get_radius B H = None"
  proof (cases "radius_lookup B")
    case None
    then show ?thesis by (simp add: get_radius_def dom_def)
  next
    case (Some t)
    then have "B \<in> dom radius_lookup" by auto
    with a have "H \<notin> dom t" using radius_table_dom [OF Some] by simp
    then show ?thesis using Some by (simp add: get_radius_def)
  qed
next
  assume a: "B \<in> {''AL'', ''EP'', ''CP'', ''WP'', ''IO'', ''SH'', ''SL''}
        \<and> H \<in> {12, 24, 36, 48, 60, 72, 96, 120}"
  then have "B \<in> dom radius_lookup" by (simp only: dom_radius_lookup)
  then obtain t where t: "radius_lookup B = Some t" by auto
  from a have "H \<in> dom t" by (simp only: radius_table_dom [OF t])
  then obtain r where r: "t H = Some r" by auto
  have "get_radius B H = Some r" using t r by (simp add: get_radius_Some_iff)
  moreover have "0 < r" using radius_table_pos [OF t r] .
  ultimately show "\<exists>r. get_radius B H = Some r \<and> 0 < r" by blast
qed

theorem get_radius_table_witness:
  "get_radius ''AL'' 12 = Some 26 \<and> get_radius ''EP'' 120 = Some 152
   \<and> get_radius ''AL'' 0 = None \<and> get_radius ''XX'' 12 = None"
proof -
  have d: "''AL'' \<in> dom radius_lookup" "''EP'' \<in> dom radius_lookup"
    "''XX'' \<notin> dom radius_lookup"
    by (simp_all add: dom_radius_lookup)
  have t: "radius_lookup ''AL'' = Some (map_of radius_AL)"
    "radius_lookup ''EP'' = Some (map_of radius_EP)"
    by (simp_all add: radius_lookup_def)
  have h: "(12::int) \<in> dom (the (radius_lookup ''AL''))"
    "(120::int) \<in> dom (the (radius_lookup ''EP''))"
    "(0::int) \<notin> {12, 24, 36, 48, 60, 72, 96, 120}"
    by (simp_all add: t dom_radius_AL dom_radius_EP)
  from get_radius_table [of "''AL''" 12] d(1) h(1)
  obtain r1 where r1: "get_radius ''AL'' 12 = Some r1" by blast
  from get_radius_table [of "''EP''" 120] d(2) h(2)
  obtain r2 where r2: "get_radius ''EP'' 120 = Some r2" by blast
  have v1: "map_of radius_AL 12 = Some 26" by (simp add: radius_AL_def)
  have v2: "map_of radius_EP 120 = Some 152" by (simp add: radius_EP_def)
  have "get_radius ''AL'' 12 = Some 26"
    using r1 v1 t(1) by (simp add: get_radius_Some_iff)
  moreover have "get_radius ''EP'' 120 = Some 152"
    using r2 v2 t(2) by (simp add: get_radius_Some_iff)
  moreover have "get_radius ''AL'' 0 = None"
    using get_radius_table [of "''AL''" 0] h(3) by blast
  moreover have "get_radius ''XX'' 12 = None"
    using get_radius_table [of "''XX''" 12] d(3) by blast
  ultimately show ?thesis by blast
qed

section \<open>Properties of the intensity classifier\<close>

text \<open>
  C1. The wind-speed classifier at 63 knots. The scale promises Tropical Storm on
  [34,64); the table's row is \<open>(34, 63)\<close> and the test is \<open>lower <= w < upper\<close>, so 63
  matches no row and the function returns Unknown with ordinal -999.
\<close>

theorem wind_speed_63_unknown:
  "wind_speed_to_category 63 = (''Unknown'', -999)"
  by (simp add: wind_speed_to_category_def ws_categories_def)

lemma pressure_severity:
  "severity (pressure_to_category p) =
     (if 990 \<le> p then 0 else if 980 \<le> p then 1 else if 965 \<le> p then 2
      else if 945 \<le> p then 3 else if 920 \<le> p then 4 else if 0 \<le> p then 5 else -999)"
  by (simp add: severity_def pressure_to_category_def cp_categories_def)

text \<open>
  C6. Monotonicity of the pressure classifier. As stated, for all pressures, it fails:
  a negative pressure matches no row (the last row is bounded below by 0) and gets the
  ordinal -999, below the ordinal 0 of a pressure of 1000.
\<close>

theorem pressure_monotone_counterexample:
  "(-1::real) \<le> 1000
   \<and> \<not> severity (pressure_to_category 1000) \<le> severity (pressure_to_category (-1))"
  by (simp add: severity_def pressure_to_category_def cp_categories_def)

text \<open>
  C6, amended. On non-negative pressures the severity ordinal does not increase as the
  pressure increases.
\<close>

theorem pressure_monotone_nonneg:
  assumes "0 \<le> p1" and "p1 \<le> p2"
  shows "severity (pressure_to_category p2) \<le> severity (pressure_to_category p1)"
  using assms unfolding pressure_severity by (simp split: if_splits)

theorem pressure_monotone_nonneg_witness:
  "(0::real) \<le> 950 \<and> (950::real) \<le> 985
   \<and> severity (pressure_to_category 985) \<le> severity (pressure_to_category 950)
   \<and> severity (pressure_to_category 950) = 3 \<and> severity (pressure_to_category 985) = 1"
proof -
  have a: "(0::real) \<le> 950" and b: "(950::real) \<le> 985" by simp_all
  have "severity (pressure_to_category 950) = 3" "severity (pressure_to_category 985) = 1"
    by (simp_all add: pressure_severity)
  with a b pressure_monotone_nonneg [OF a b] show ?thesis by simp
qed

section \<open>Properties of label cleaning\<close>

text \<open>
  C5. The label "Miami Office 12B Annex". As stated (cleaned label "Miami") the claim
  fails: "Office" comes before the first token with a digit and is kept.
\<close>

theorem process_string_miami_counterexample:
  "process_string ''Miami Office 12B Annex'' \<noteq> ''Miami''"
  by (simp add: process_string_def py_split_def isspace_def isdigit_def py_strip_def
      py_lstrip_def py_rstrip_def)

text \<open>
  C5, amended. The label "Miami Office 12B Annex" is cleaned to "Miami Office": the
  tokens before "12B" are kept, "12B" and everything after it are dropped.
\<close>

theorem process_string_miami:
  "process_string ''Miami Office 12B Annex'' = ''Miami Office''"
  by (simp add: process_string_def py_split_def isspace_def isdigit_def py_strip_def
      py_lstrip_def py_rstrip_def)

lemma split_acc_word:
  "\<not> list_ex isspace w \<Longrightarrow> split_acc cur (w @ rest) = split_acc (cur @ w) rest"
  by (induction w arbitrary: cur) simp_all

lemma split_acc_wordlike:
  "\<not> list_ex isspace cur \<Longrightarrow> \<forall>w \<in> set (split_acc cur s). wordlike w"
proof (induction s arbitrary: cur)
  case Nil
  then show ?case by (simp add: wordlike_def)
next
  case (Cons c cs)
  show ?case
  proof (cases "isspace c")
    case True
    have "\<forall>w \<in> set (split_acc [] cs). wordlike w" by (rule Cons.IH) simp
    with True Cons.prems show ?thesis by (simp add: wordlike_def)
  next
    case False
    with Cons.prems have "\<not> list_ex isspace (cur @ [c])" by simp
    then have "\<forall>w \<in> set (split_acc (cur @ [c]) cs). wordlike w" by (rule Cons.IH)
    with False show ?thesis by simp
  qed
qed

lemma py_split_wordlike: "\<forall>w \<in> set (py_split s). wordlike w"
  unfolding py_split_def by (rule split_acc_wordlike) simp

lemma isspace_space: "isspace CHR '' ''"
  by (simp add: isspace_def)

lemma py_split_join:
  "\<forall>w \<in> set ws. wordlike w \<Longrightarrow> py_split (py_join '' '' ws) = ws"
proof (induction ws)
  case Nil
  then show ?case by (simp add: py_split_def)
next
  case (Cons w ws)
  then have nw: "\<not> list_ex isspace w" and ne: "w \<noteq> []" by (simp_all add: wordlike_def)
  show ?case
  proof (cases ws)
    case Nil
    have "split_acc [] (w @ []) = split_acc ([] @ w) []" by (rule split_acc_word [OF nw])
    with Nil ne show ?thesis by (simp add: py_split_def)
  next
    case (Cons v va)
    have "split_acc [] (w @ '' '' @ py_join '' '' ws) = split_acc ([] @ w) ('' '' @ py_join '' '' ws)"
      by (rule split_acc_word [OF nw])
    also have "\<dots> = w # split_acc [] (py_join '' '' ws)"
      using ne by (simp add: isspace_space)
    also have "\<dots> = w # ws" using Cons.IH Cons.prems by (simp add: py_split_def)
    finally show ?thesis using Cons by (simp add: py_split_def)
  qed
qed

lemma clean_loop_Suc:
  "clean_loop (Suc i) ws acc = acc @ takeWhile (\<lambda>w. \<not> list_ex isdigit w) ws"
  by (induction ws arbitrary: i acc) simp_all

lemma clean_loop_0:
  "clean_loop 0 ws [] = (case ws of [] \<Rightarrow> [] | w # r \<Rightarrow> w # takeWhile (\<lambda>w. \<not> list_ex isdigit w) r)"
  by (cases ws) (simp_all add: clean_loop_Suc)

lemma clean_loop_idem: "clean_loop 0 (clean_loop 0 ws []) [] = clean_loop 0 ws []"
  by (cases ws) (simp_all add: clean_loop_Suc)

lemma clean_loop_subset: "set (clean_loop 0 ws []) \<subseteq> set ws"
  by (cases ws) (auto simp: clean_loop_Suc dest: set_takeWhileD)

lemma py_strip_id:
  assumes "s \<noteq> []" "\<not> isspace (hd s)" "\<not> isspace (last s)"
  shows "py_strip s = s"
proof -
  from assms(1,2) have l: "py_lstrip s = s" by (cases s) (simp_all add: py_lstrip_def)
  from assms(1,3) have "dropWhile isspace (rev s) = rev s"
    by (cases "rev s") (simp_all add: last_rev hd_rev [symmetric])
  then show ?thesis by (simp add: py_strip_def l py_rstrip_def)
qed

lemma py_join_hd:
  assumes "ws \<noteq> []" and "\<forall>w \<in> set ws. wordlike w"
  shows "py_join '' '' ws \<noteq> [] \<and> hd (py_join '' '' ws) = hd (hd ws)"
proof (cases ws)
  case Nil
  with assms show ?thesis by simp
next
  case (Cons w r)
  with assms show ?thesis by (cases r) (simp_all add: wordlike_def)
qed

lemma py_join_last:
  "ws \<noteq> [] \<Longrightarrow> \<forall>w \<in> set ws. wordlike w \<Longrightarrow>
   last (py_join '' '' ws) = last (last ws)"
proof (induction ws)
  case Nil then show ?case by simp
next
  case (Cons w ws)
  show ?case
  proof (cases ws)
    case Nil then show ?thesis by simp
  next
    case (Cons v va)
    with Cons.prems Cons.IH have "last (py_join '' '' ws) = last (last ws)" by simp
    moreover have "py_join '' '' ws \<noteq> []" using py_join_hd [of ws] Cons Cons.prems by simp
    ultimately show ?thesis using Cons by simp
  qed
qed

lemma wordlike_ends: "wordlike w \<Longrightarrow> \<not> isspace (hd w) \<and> \<not> isspace (last w)"
proof -
  assume "wordlike w"
  then have ne: "w \<noteq> []" and ns: "\<forall>c \<in> set w. \<not> isspace c"
    by (simp_all add: wordlike_def list_ex_iff)
  from ne have "hd w \<in> set w" "last w \<in> set w" by simp_all
  with ns show ?thesis by blast
qed

lemma py_strip_join:
  assumes "\<forall>w \<in> set ws. wordlike w"
  shows "py_strip (py_join '' '' ws) = py_join '' '' ws"
proof (cases ws)
  case Nil
  then show ?thesis by (simp add: py_strip_def py_lstrip_def py_rstrip_def)
next
  case (Cons v va)
  then have ne: "ws \<noteq> []" by simp
  have h: "wordlike (hd ws)" "wordlike (last ws)" using assms ne by simp_all
  show ?thesis
    using py_join_hd [OF ne assms] py_join_last [OF ne assms] wordlike_ends [OF h(1)]
      wordlike_ends [OF h(2)]
    by (intro py_strip_id) simp_all
qed

text \<open>
  C9. Label cleaning is idempotent: cleaning a cleaned label changes nothing. The proof
  uses of the two character classes only that the separator \<open>' '\<close> is whitespace.
\<close>

theorem process_string_idempotent:
  "process_string (process_string s) = process_string s"
proof -
  let ?ws = "clean_loop 0 (py_split s) []"
  have w: "\<forall>w \<in> set ?ws. wordlike w"
    using clean_loop_subset [of "py_split s"] py_split_wordlike [of s] by blast
  have p: "process_string s = py_join '' '' ?ws"
    by (simp add: process_string_def py_strip_join [OF w])
  have "py_split (process_string s) = ?ws"
    by (simp add: p py_split_join [OF w])
  then have "process_string (process_string s) = py_strip (py_join '' '' (clean_loop 0 ?ws []))"
    by (simp add: process_string_def)
  also have "\<dots> = py_strip (py_join '' '' ?ws)" by (simp only: clean_loop_idem)
  also have "\<dots> = process_string s" by (simp add: process_string_def)
  finally show ?thesis .
qed

section \<open>Properties of the cone builder\<close>

lemma try_models_none:
  assumes "\<forall>r \<in> set rs. ModelName r \<notin> set ms" and "ms \<noteq> []"
  shows "try_models (Frame rs) ms v = Inr (Some (Frame []))"
  using assms
proof (induction ms arbitrary: v)
  case Nil
  then show ?case by simp
next
  case (Cons m ms)
  then have f: "filter (\<lambda>r. ModelName r = m) rs = []" by (auto simp: filter_empty_conv)
  show ?case
  proof (cases ms)
    case Nil
    then show ?thesis by (simp add: f)
  next
    case (Cons m' ms')
    with Cons.prems Cons.IH [of "Some (Frame [])"] show ?thesis by (simp add: f)
  qed
qed

lemma filter_no_preferred:
  assumes "\<forall>r \<in> set rs. ModelName r \<notin> set models_to_try"
  shows "filter_adeck_gdf_for_official_model (Frame rs) = Inr EmptyFrame"
proof -
  have "models_to_try \<noteq> []" by (simp add: models_to_try_def)
  from try_models_none [OF assms this]
  show ?thesis by (simp add: filter_adeck_gdf_for_official_model_def)
qed

lemma cone_no_preferred:
  assumes "\<forall>r \<in> set rs. ModelName r \<notin> set models_to_try"
  shows "create_uncertainty_cone g (Frame rs) = Inl (KeyError ''ForecastHour'')"
  by (simp add: create_uncertainty_cone_def filter_no_preferred [OF assms])

lemma buffer_rows_length:
  "length (buffer_rows g rs acc) = length acc + length (usable rs)"
  by (induction rs arbitrary: acc) (auto simp: usable_def split: option.splits)

lemma usable_to_crs_utm: "length (usable (to_crs_utm g rs)) = length (usable rs)"
proof -
  have "length (usable (map (\<lambda>r. r\<lparr>geometry := f ` geometry r\<rparr>) xs)) = length (usable xs)"
    for f xs
    by (induction xs) (simp_all add: usable_def)
  then show ?thesis by (simp add: to_crs_utm_def)
qed

lemma usable_sort: "length (usable (sort_key ForecastHour rs)) = length (usable rs)"
  by (simp add: usable_def filter_sort)

lemma buffered_count:
  "length (buffer_rows g (to_crs_utm g (sort_key ForecastHour rs)) []) = length (usable rs)"
  by (simp add: buffer_rows_length usable_to_crs_utm usable_sort)

lemma cone_of_frame:
  assumes "filter_adeck_gdf_for_official_model input_gdf = Inr (Frame ofcl)"
  shows "create_uncertainty_cone g input_gdf =
     (let bs = buffer_rows g (to_crs_utm g (sort_key ForecastHour ofcl)) []
      in if bs = [] then Inr []
         else Inr [to_wgs84 g (sort_key ForecastHour ofcl) ` unary_union (convex_hull_segments g bs)])"
  by (simp add: create_uncertainty_cone_def assms Let_def)

lemma segments_single: "length bs < 2 \<Longrightarrow> convex_hull_segments g bs = []"
  by (cases bs) (simp_all add: convex_hull_segments_def)

text \<open>
  With records of a preferred source of which fewer than two have an entry in the
  radius table, the function returns the frame without rows when none has one, and a
  frame of one row holding the empty geometry when exactly one has.
\<close>

lemma cone_below_two_buffers:
  assumes "filter_adeck_gdf_for_official_model input_gdf = Inr (Frame ofcl)"
    and "length (usable ofcl) < 2"
  shows "create_uncertainty_cone g input_gdf = Inr (if usable ofcl = [] then [] else [{}])"
proof -
  let ?bs = "buffer_rows g (to_crs_utm g (sort_key ForecastHour ofcl)) []"
  have len: "length ?bs = length (usable ofcl)" by (rule buffered_count)
  then have e: "?bs = [] \<longleftrightarrow> usable ofcl = []" by (metis length_0_conv)
  have "convex_hull_segments g ?bs = []" using assms(2) len by (simp add: segments_single)
  then have "unary_union (convex_hull_segments g ?bs) = {}" by (simp add: unary_union_def)
  then show ?thesis unfolding cone_of_frame [OF assms(1)] by (simp add: Let_def e)
qed


lemma try_models_some:
  assumes "\<exists>r \<in> set rs. ModelName r \<in> set ms"
  shows "\<exists>m \<in> set ms. filter (\<lambda>r. ModelName r = m) rs \<noteq> [] \<and>
           try_models (Frame rs) ms v = Inr (Some (Frame (filter (\<lambda>r. ModelName r = m) rs)))"
  using assms
proof (induction ms arbitrary: v)
  case Nil
  then show ?case by simp
next
  case (Cons m ms)
  show ?case
  proof (cases "filter (\<lambda>r. ModelName r = m) rs = []")
    case True
    then have "\<forall>r \<in> set rs. ModelName r \<noteq> m" by (simp add: filter_empty_conv)
    with Cons.prems have "\<exists>r \<in> set rs. ModelName r \<in> set ms" by auto
    from Cons.IH [OF this, of "Some (Frame [])"] True show ?thesis by auto
  next
    case False
    then show ?thesis by auto
  qed
qed

lemma filter_preferred:
  assumes "\<exists>r \<in> set rs. ModelName r \<in> set models_to_try"
  shows "\<exists>m \<in> set models_to_try. filter (\<lambda>r. ModelName r = m) rs \<noteq> [] \<and>
           filter_adeck_gdf_for_official_model (Frame rs)
             = Inr (Frame (filter (\<lambda>r. ModelName r = m) rs))"
proof -
  from try_models_some [OF assms, of None]
  obtain m where m: "m \<in> set models_to_try" "filter (\<lambda>r. ModelName r = m) rs \<noteq> []"
    "try_models (Frame rs) models_to_try None
       = Inr (Some (Frame (filter (\<lambda>r. ModelName r = m) rs)))"
    by blast
  then have "filter_adeck_gdf_for_official_model (Frame rs)
             = Inr (Frame (filter (\<lambda>r. ModelName r = m) rs))"
    by (simp add: filter_adeck_gdf_for_official_model_def)
  with m(1,2) show ?thesis by blast
qed

lemma get_radius_AL_12: "get_radius ''AL'' 12 = Some 26"
  by (simp add: get_radius_Some_iff radius_lookup_def radius_AL_def)

lemma get_radius_AL_0: "get_radius ''AL'' 0 = None"
  by (simp add: get_radius_def radius_lookup_def radius_AL_def dom_def)

text \<open>
  C2. Fewer than two usable buffers. A track whose only record is from a source outside
  the preferred list has no authoritative point, hence no usable buffer, and the call
  ends in \<open>KeyError\<close> instead of returning an empty cone. A track with exactly one
  authoritative point, which has a radius, gives a frame of one row that holds the
  empty geometry: the guard on \<open>buffered_geometries\<close> lets a single buffer through,
  and the frame returned is not the empty frame.
\<close>

theorem cone_below_two_buffers_not_empty:
  "create_uncertainty_cone g
     (Frame [\<lparr>ModelName = ''CMC'', ForecastHour = 12, Basin = ''AL'', geometry = {(-80, 25)}\<rparr>])
     = Inl (KeyError ''ForecastHour'')
   \<and> create_uncertainty_cone g
     (Frame [\<lparr>ModelName = ''OFCL'', ForecastHour = 12, Basin = ''AL'', geometry = {(-80, 25)}\<rparr>])
     = Inr [{}]
   \<and> [{}] \<noteq> ([] :: cone_gdf)"
proof -
  let ?c = "\<lparr>ModelName = ''CMC'', ForecastHour = 12, Basin = ''AL'', geometry = {(-80::real, 25::real)}\<rparr>"
  let ?o = "\<lparr>ModelName = ''OFCL'', ForecastHour = 12, Basin = ''AL'', geometry = {(-80::real, 25::real)}\<rparr>"
  have "\<forall>r \<in> set [?c]. ModelName r \<notin> set models_to_try"
    by (simp add: models_to_try_def)
  then have a: "create_uncertainty_cone g (Frame [?c]) = Inl (KeyError ''ForecastHour'')"
    by (rule cone_no_preferred)
  have f: "filter_adeck_gdf_for_official_model (Frame [?o]) = Inr (Frame [?o])"
    by (simp add: filter_adeck_gdf_for_official_model_def models_to_try_def)
  have u: "usable [?o] = [?o]" by (simp add: usable_def get_radius_AL_12)
  have l: "length (usable [?o]) < 2" by (simp add: u)
  from cone_below_two_buffers [OF f l, of g]
  have b: "create_uncertainty_cone g (Frame [?o]) = Inr [{}]" by (simp add: u)
  from a b show ?thesis by simp
qed

subsection \<open>The cone covers its buffers\<close>














subsection \<open>No record of a preferred source\<close>

text \<open>
  C3. A track with no record from any preferred source. The filter returns
  \<open>gpd.GeoDataFrame()\<close>, which has no \<open>ForecastHour\<close> column, and the
  \<open>sort_values\<close> that follows raises \<open>KeyError\<close>: the call fails instead of
  returning an empty cone.
\<close>

theorem cone_raises_without_preferred_source:
  assumes "\<forall>r \<in> set rs. ModelName r \<notin> set models_to_try"
  shows "filter_adeck_gdf_for_official_model (Frame rs) = Inr EmptyFrame
         \<and> create_uncertainty_cone g (Frame rs) = Inl (KeyError ''ForecastHour'')"
  using filter_no_preferred [OF assms] cone_no_preferred [OF assms] by simp

theorem cone_raises_without_preferred_source_witness:
  "create_uncertainty_cone plane_geo
     (Frame [\<lparr>ModelName = ''CMC'', ForecastHour = 12, Basin = ''AL'', geometry = {(-80, 25)}\<rparr>,
             \<lparr>ModelName = ''NVGM'', ForecastHour = 24, Basin = ''AL'', geometry = {(-81, 26)}\<rparr>])
     = Inl (KeyError ''ForecastHour'')"
proof -
  let ?rs = "[\<lparr>ModelName = ''CMC'', ForecastHour = 12, Basin = ''AL'', geometry = {(-80, 25)}\<rparr>,
             \<lparr>ModelName = ''NVGM'', ForecastHour = 24, Basin = ''AL'', geometry = {(-81::real, 26::real)}\<rparr>]"
  have h: "\<forall>r \<in> set ?rs. ModelName r \<notin> set models_to_try"
    by (simp add: models_to_try_def)
  from cone_raises_without_preferred_source [OF h, of plane_geo] show ?thesis by simp
qed

section \<open>Properties of storm name inference\<close>

lemma keys_dict_incr:
  "map fst (dict_incr d k) = (if k \<in> set (map fst d) then map fst d else map fst d @ [k])"
  by (induction d) force+

lemma first_appearances_snoc:
  "first_appearances (xs @ [x]) =
     (if x \<in> set xs then first_appearances xs else first_appearances xs @ [x])"
proof -
  have "remdups (x # rev xs) = (if x \<in> set xs then remdups (rev xs) else x # remdups (rev xs))"
    by simp
  then show ?thesis by (simp add: first_appearances_def)
qed

lemma set_first_appearances: "set (first_appearances xs) = set xs"
  by (simp add: first_appearances_def)

lemma distinct_first_appearances: "distinct (first_appearances xs)"
  by (simp add: first_appearances_def)

lemma first_appearances_filter:
  "filter P (first_appearances xs) = first_appearances (filter P xs)"
proof -
  have "filter P (rev (remdups (rev xs))) = rev (filter P (remdups (rev xs)))"
    by (simp only: rev_filter)
  also have "\<dots> = rev (remdups (filter P (rev xs)))" by (simp only: remdups_filter)
  also have "\<dots> = rev (remdups (rev (filter P xs)))" by (simp only: rev_filter)
  finally show ?thesis by (simp only: first_appearances_def)
qed

lemma keys_count_names:
  "map fst d = first_appearances seen \<Longrightarrow>
   map fst (count_names file_lines d) = first_appearances (seen @ potential_names file_lines)"
proof (induction file_lines arbitrary: d seen)
  case Nil
  then show ?case by (simp add: potential_names_def map_filter_simps)
next
  case (Cons line rest)
  show ?case
  proof (cases "potential_name line")
    case None
    with Cons.IH [OF Cons.prems] show ?thesis
      by (simp add: potential_names_def map_filter_simps)
  next
    case (Some name)
    have "map fst (dict_incr d name) = first_appearances (seen @ [name])"
      using Cons.prems
      by (simp add: keys_dict_incr first_appearances_snoc set_first_appearances
          del: map_append)
    from Cons.IH [OF this] Some show ?thesis
      by (simp add: potential_names_def map_filter_simps)
  qed
qed

lemma keys_filter: "map fst (filter (\<lambda>(k, v). P k) d) = filter P (map fst d)"
  by (induction d) auto

lemma keys_filter_names: "map fst (filter_names d) = filter is_candidate (map fst d)"
proof -
  have "filter is_candidate xs =
        filter (\<lambda>k. k \<notin> number_words_set) (filter (\<lambda>k. \<not> list_ex isdigit k)
          (filter (\<lambda>k. k \<notin> set basin_codes) xs))" for xs
    by (induction xs) (auto simp: is_candidate_def)
  then have c: "filter is_candidate (map fst d) =
        filter (\<lambda>k. k \<notin> number_words_set) (filter (\<lambda>k. \<not> list_ex isdigit k)
          (filter (\<lambda>k. k \<notin> set basin_codes) (map fst d)))" .
  show ?thesis unfolding c by (simp only: filter_names_def Let_def keys_filter)
qed

lemma storm_names_candidates:
  "map fst (filter_names (count_names file_lines [])) = candidates file_lines"
proof -
  have "map fst (count_names file_lines []) = first_appearances ([] @ potential_names file_lines)"
    by (rule keys_count_names) (simp add: first_appearances_def)
  then show ?thesis
    by (simp add: keys_filter_names candidates_def first_appearances_filter)
qed

lemma remove_invest_filter:
  "distinct ns \<Longrightarrow> remove_invest ns = filter (\<lambda>n. n \<noteq> ''INVEST'') ns"
proof -
  assume d: "distinct ns"
  have f: "filter (\<lambda>n. n \<noteq> x) ns = removeAll x ns" for x :: string
    by (induction ns) auto
  show ?thesis
  proof (cases "''INVEST'' \<in> set ns")
    case True
    then show ?thesis by (simp add: remove_invest_def distinct_remove1_removeAll [OF d] f)
  next
    case False
    then show ?thesis by (simp add: remove_invest_def f)
  qed
qed

lemma set_clean_names:
  "set (clean_names ns acc) = set acc \<union> (\<lambda>n. strip_basin n basin_codes) ` set ns"
  by (induction ns arbitrary: acc) (auto simp: set_add_def)

lemma distinct_clean_names: "distinct acc \<Longrightarrow> distinct (clean_names ns acc)"
  by (induction ns arbitrary: acc) (auto simp: set_add_def)

lemma clean_names_single:
  assumes "ns \<noteq> []"
  shows "length (clean_names ns []) = 1 \<longleftrightarrow>
           (\<forall>n \<in> set ns. strip_basin n basin_codes = strip_basin (hd ns) basin_codes)"
    and "length (clean_names ns []) = 1 \<Longrightarrow>
           clean_names ns [] ! 0 = strip_basin (hd ns) basin_codes"
proof -
  let ?f = "\<lambda>n. strip_basin n basin_codes"
  let ?c = "clean_names ns []"
  have s: "set ?c = ?f ` set ns" by (simp add: set_clean_names)
  have d: "distinct ?c" by (simp add: distinct_clean_names)
  have h: "?f (hd ns) \<in> set ?c" using assms by (simp add: s)
  show "length ?c = 1 \<longleftrightarrow> (\<forall>n \<in> set ns. ?f n = ?f (hd ns))"
  proof
    assume "length ?c = 1"
    then obtain x where x: "?c = [x]" by (cases ?c) auto
    with s have i: "?f ` set ns = {x}" by simp
    have a: "?f n = x" if "n \<in> set ns" for n
    proof -
      from that have "?f n \<in> ?f ` set ns" by (rule imageI)
      with i show ?thesis by simp
    qed
    from assms have "hd ns \<in> set ns" by simp
    then have "?f (hd ns) = x" by (rule a)
    with a show "\<forall>n \<in> set ns. ?f n = ?f (hd ns)" by simp
  next
    assume a: "\<forall>n \<in> set ns. ?f n = ?f (hd ns)"
    from assms have "hd ns \<in> set ns" by simp
    with a have "?f ` set ns = {?f (hd ns)}" by blast
    with s have "set ?c = {?f (hd ns)}" by simp
    with d have "card (set ?c) = 1" by simp
    with d show "length ?c = 1" by (simp add: distinct_card)
  qed
  show "length ?c = 1 \<Longrightarrow> ?c ! 0 = ?f (hd ns)"
  proof -
    assume "length ?c = 1"
    then obtain x where x: "?c = [x]" by (cases ?c) auto
    with h show ?thesis by simp
  qed
qed

lemma choose_name_rule:
  assumes "distinct cs"
  shows "choose_name cs = name_rule cs"
proof (cases "cs = [] \<or> cs = [''INVEST'']")
  case True
  then show ?thesis by (auto simp: choose_name_def name_rule_def)
next
  case False
  let ?ns = "filter (\<lambda>n. n \<noteq> ''INVEST'') cs"
  have r: "remove_invest cs = ?ns" by (rule remove_invest_filter [OF assms])
  show ?thesis
  proof (cases "length ?ns = 1")
    case True
    then have "?ns ! 0 = hd ?ns" by (cases ?ns) auto
    with False True show ?thesis by (simp add: choose_name_def name_rule_def r Let_def)
  next
    case n1: False
    have ne: "?ns \<noteq> []"
    proof
      assume e: "?ns = []"
      then have "\<forall>n \<in> set cs. n = ''INVEST''" by (simp add: filter_empty_conv)
      with assms have "cs = [] \<or> cs = [''INVEST'']"
        by (cases cs rule: remdups_adj.cases) auto
      with False show False by simp
    qed
    from clean_names_single [OF ne] False n1 show ?thesis
      by (auto simp: choose_name_def name_rule_def r Let_def)
  qed
qed

lemma remove_invest_nonempty:
  assumes "storm_names \<noteq> []" and "storm_names \<noteq> [''INVEST'']"
  shows "remove_invest storm_names \<noteq> []"
proof (cases storm_names)
  case Nil
  with assms show ?thesis by simp
next
  case (Cons a as)
  with assms show ?thesis by (cases as) (auto simp: remove_invest_def)
qed

text \<open>
  C7, amended. The inferred name is the title-cased result of the rule
  \<open>name_rule\<close> on the candidates of the file: the name tokens of all lines that are
  not a basin code, hold no digit and are not a number word, in order of first
  appearance. The counts that the loop collects are not used.
\<close>

theorem extract_storm_info_name_rule:
  "extract_storm_info_name file_lines = title (name_rule (candidates file_lines))"
proof -
  have "distinct (candidates file_lines)" by (simp add: candidates_def distinct_first_appearances)
  then show ?thesis
    by (simp add: extract_storm_info_name_def storm_names_candidates choose_name_rule)
qed


theorem extract_storm_info_name_rule_witness:
  "extract_storm_info_name
     [sample_line ''MARIA'', sample_line ''MARIAAL'', sample_line ''INVEST'',
      sample_line ''NINE'', sample_line ''AL092024'', sample_line ''EP'']
   = ''Maria''"
proof -
  let ?f = "[sample_line ''MARIA'', sample_line ''MARIAAL'', sample_line ''INVEST'',
      sample_line ''NINE'', sample_line ''AL092024'', sample_line ''EP'']"
  have "title (name_rule (candidates ?f)) = ''Maria''" by code_simp
  with extract_storm_info_name_rule [of ?f] show ?thesis by (simp only:)
qed

text \<open>
  C7. As stated, the majority candidate is picked. In a file where ALPHA is the name
  token of two lines and BETA of one, the dictionary holds the counts 2 and 1, there is
  no tie, and the inferred name is Beta, the candidate that appeared last.
\<close>

theorem extract_storm_info_name_not_majority:
  "count_names [sample_line ''ALPHA'', sample_line ''ALPHA'', sample_line ''BETA''] []
     = [(''ALPHA'', 2), (''BETA'', 1)]
   \<and> extract_storm_info_name
         [sample_line ''ALPHA'', sample_line ''ALPHA'', sample_line ''BETA'']
     = ''Beta''"
  by code_simp

section \<open>Properties of the coordinate parser\<close>












end
